theory Spec2Isabelle
  imports Main "HOL-Library.Word"
begin

section \<open>Solidity values, revert reasons and events\<close>

text \<open>
  The development embeds three Solidity sources: the library \<open>ComposeMsg\<close>, the
  upgradeable receiver \<open>AlphaTokenCrossChainManager\<close> and the token-side initiator
  \<open>AlphaOFT\<close>. Byte strings are lists of 8-bit words, \<open>address\<close> is a 160-bit word,
  \<open>uint256\<close> and \<open>bytes32\<close> are 256-bit words. A call that reverts returns \<open>Inl\<close> of
  the revert reason; a call that returns normally gives \<open>Inr\<close> of its result.
\<close>

type_synonym byte = "8 word"
type_synonym bytes = "byte list"
type_synonym address = "160 word"
type_synonym uint256 = "256 word"
type_synonym bytes32 = "256 word"
type_synonym uint64 = "64 word"
type_synonym uint32 = "32 word"

text \<open>\<open>enum MessageType { CROSS_CHAIN_SEND, BURNT }\<close> of \<open>ComposeMsg\<close>.\<close>

datatype MessageType = CROSS_CHAIN_SEND | BURNT

text \<open>
  The revert reasons. The first eight are the custom errors declared by the two contracts.
  \<open>OwnableUnauthorizedAccount\<close> is what the \<open>onlyOwner\<close> modifier of the Ownable base
  contracts reverts with. \<open>RevertString\<close> is \<open>require(c, "...")\<close> and \<open>revert("...")\<close>.
  \<open>RevertEmpty\<close> is the revert without data that compiled code executes when
  \<open>abi.decode\<close> rejects its input or a calldata slice is out of bounds. \<open>Panic\<close> carries
  the panic code (\<open>0x11\<close> checked arithmetic, \<open>0x41\<close> allocation too large). The last two
  are the reverts of the ERC20 ledger used as a concrete token.
\<close>

datatype error =
    ContractPaused
  | UnauthorizedSender
  | UntrustedOApp
  | UnsupportedMessageType
  | ZeroAddress
  | InvalidEndpointId
  | NoCrossChainManager
  | NoPeerConfigured
  | OwnableUnauthorizedAccount address
  | RevertString string
  | RevertEmpty
  | Panic nat
  | ERC20InvalidReceiver address
  | ERC20InsufficientBalance address nat uint256

datatype event =
    EndpointUpdated address address
  | TrustedOFTUpdated address address
  | TokensProcessed address uint256 MessageType
  | PausedStateChanged bool
  | CrossChainManagerUpdated uint32 address address
  | CrossChainSendInitiated address uint256 uint32

text \<open>
  The state a call leaves behind: a revert undoes every effect of the call, so the state
  after a reverted call is the state before it.
\<close>

definition state_after :: "'s \<Rightarrow> error + 's \<Rightarrow> 's" where
  "state_after s r = (case r of Inl e \<Rightarrow> s | Inr s' \<Rightarrow> s')"

text \<open>Sequencing: a revert of the first step is the revert of the whole.\<close>

definition and_then :: "error + 'a \<Rightarrow> ('a \<Rightarrow> error + 'b) \<Rightarrow> error + 'b" where
  "and_then r f = (case r of Inl e \<Rightarrow> Inl e | Inr x \<Rightarrow> f x)"

section \<open>The ABI encoding used by ComposeMsg\<close>

text \<open>
  \<open>be_bytes k n\<close> is the big-endian representation of \<open>n\<close> in \<open>k\<close> bytes (the low
  \<open>k\<close> bytes of \<open>n\<close>), \<open>be_val\<close> reads a big-endian byte string as a number, and
  \<open>mload d p\<close> reads the 32-byte word of \<open>d\<close> at offset \<open>p\<close>.
\<close>

fun be_bytes :: "nat \<Rightarrow> nat \<Rightarrow> bytes" where
  "be_bytes 0 n = []"
| "be_bytes (Suc k) n = be_bytes k (n div 256) @ [word_of_nat (n mod 256)]"

definition be_val :: "bytes \<Rightarrow> nat" where
  "be_val bs = foldl (\<lambda>acc b. acc * 256 + unat b) 0 bs"

definition mload :: "bytes \<Rightarrow> nat \<Rightarrow> nat" where
  "mload d p = be_val (take 32 (drop p d))"

text \<open>Zero padding of a byte string to a multiple of 32 bytes.\<close>

definition pad32 :: "bytes \<Rightarrow> bytes" where
  "pad32 bs = bs @ replicate ((32 - length bs mod 32) mod 32) 0"

fun MessageType_to_nat :: "MessageType \<Rightarrow> nat" where
  "MessageType_to_nat CROSS_CHAIN_SEND = 0"
| "MessageType_to_nat BURNT = 1"

definition nat_to_MessageType :: "nat \<Rightarrow> MessageType" where
  "nat_to_MessageType n = (if n = 0 then CROSS_CHAIN_SEND else BURNT)"

text \<open>
  \<open>abi.encode(recipient, messageType, additionalData)\<close> for the types
  \<open>(address, MessageType, bytes)\<close>: a head of three words (the address left-padded, the
  enum as a number, the offset \<open>0x60\<close> of the tail) followed by the tail of the dynamic
  field (its length, then its bytes padded with zeros to a multiple of 32).
\<close>

definition abi_encode_tuple :: "address \<Rightarrow> MessageType \<Rightarrow> bytes \<Rightarrow> bytes" where
  "abi_encode_tuple r t ad =
     be_bytes 32 (unat r) @ be_bytes 32 (MessageType_to_nat t) @ be_bytes 32 96
       @ be_bytes 32 (length ad) @ pad32 ad"

text \<open>
  \<open>abi.decode(data, (address, MessageType, bytes))\<close> as the compiler's decoder computes
  it: the head must be present (96 bytes); the address word must have its upper 96 bits
  clear; the enum word must be below the number of members; the offset of the tail must
  fit in 64 bits and leave room for the length word; the length must fit in 64 bits and
  the bytes must lie within the data. Each violated check reverts. Bytes after the tail
  are not looked at, and the padding is not checked. Before the last check the compiled
  decoder reserves memory for the bytes, and that step panics (\<open>0x41\<close>) as well when the
  free-memory pointer plus the rounded length passes \<open>2 ^ 64\<close>; the pointer is not part
  of the model, so for a length word within a few hundred of \<open>2 ^ 64\<close> the model gives
  the revert of the bounds check where the compiled code panics. Both are reverts.
\<close>

definition abi_decode_tuple :: "bytes \<Rightarrow> error + (address \<times> MessageType \<times> bytes)" where
  "abi_decode_tuple d =
     (if length d < 96 then Inl RevertEmpty
      else if 2 ^ 160 \<le> mload d 0 then Inl RevertEmpty
      else if 2 \<le> mload d 32 then Inl RevertEmpty
      else if 2 ^ 64 \<le> mload d 64 then Inl RevertEmpty
      else if \<not> mload d 64 + 31 < length d then Inl RevertEmpty
      else if 2 ^ 64 \<le> mload d (mload d 64) then Inl (Panic 65)
      else if length d < mload d 64 + 32 + mload d (mload d 64) then Inl RevertEmpty
      else Inr (word_of_nat (mload d 0), nat_to_MessageType (mload d 32),
                take (mload d (mload d 64)) (drop (mload d 64 + 32) d)))"

text \<open>\<open>abi.encode(amount)\<close> and \<open>abi.decode(data, (uint256))\<close>.\<close>

definition abi_encode_uint256 :: "uint256 \<Rightarrow> bytes" where
  "abi_encode_uint256 v = be_bytes 32 (unat v)"

definition abi_decode_uint256 :: "bytes \<Rightarrow> error + uint256" where
  "abi_decode_uint256 d =
     (if length d < 32 then Inl RevertEmpty else Inr (word_of_nat (mload d 0)))"

section \<open>Library ComposeMsg\<close>

record ComposeData =
  recipient :: address
  messageType :: MessageType
  additionalData :: bytes

definition encode :: "address \<Rightarrow> MessageType \<Rightarrow> bytes \<Rightarrow> bytes" where
  "encode r t ad = abi_encode_tuple r t ad"

definition encodeCrossChainSend :: "address \<Rightarrow> bytes" where
  "encodeCrossChainSend r = encode r CROSS_CHAIN_SEND []"

definition encodeBurnt :: "address \<Rightarrow> uint256 \<Rightarrow> bytes" where
  "encodeBurnt r amount = encode r BURNT (abi_encode_uint256 amount)"

definition decode :: "bytes \<Rightarrow> error + ComposeData" where
  "decode d =
     (case abi_decode_tuple d of
        Inl e \<Rightarrow> Inl e
      | Inr (r, t, ad) \<Rightarrow> Inr \<lparr>recipient = r, messageType = t, additionalData = ad\<rparr>)"

definition getRecipient :: "bytes \<Rightarrow> error + address" where
  "getRecipient d =
     (case abi_decode_tuple d of Inl e \<Rightarrow> Inl e | Inr (r, t, ad) \<Rightarrow> Inr r)"

definition getMessageType :: "bytes \<Rightarrow> error + MessageType" where
  "getMessageType d =
     (case abi_decode_tuple d of Inl e \<Rightarrow> Inl e | Inr (r, t, ad) \<Rightarrow> Inr t)"

definition getAdditionalData :: "bytes \<Rightarrow> error + bytes" where
  "getAdditionalData d =
     (case abi_decode_tuple d of Inl e \<Rightarrow> Inl e | Inr (r, t, ad) \<Rightarrow> Inr ad)"

definition getBurntAmount :: "bytes \<Rightarrow> error + uint256" where
  "getBurntAmount d =
     (case abi_decode_tuple d of
        Inl e \<Rightarrow> Inl e
      | Inr (r, t, ad) \<Rightarrow>
          if t \<noteq> BURNT then Inl (RevertString ''ComposeMsg: not a BURNT message'')
          else abi_decode_uint256 ad)"

definition isMessageType :: "bytes \<Rightarrow> MessageType \<Rightarrow> error + bool" where
  "isMessageType d expectedType =
     and_then (getMessageType d) (\<lambda>t. Inr (t = expectedType))"

section \<open>The transport's envelope: OFTComposeMsgCodec\<close>

text \<open>
  A Solidity calldata slice \<open>d[i:j]\<close>: it reverts when the bounds are out of order or
  beyond the data.
\<close>

definition calldata_slice :: "bytes \<Rightarrow> nat \<Rightarrow> nat \<Rightarrow> error + bytes" where
  "calldata_slice d i j =
     (if j < i \<or> length d < j then Inl RevertEmpty else Inr (take (j - i) (drop i d)))"

text \<open>
  Modelled from the spec: the library \<open>OFTComposeMsgCodec\<close> that \<open>lzCompose\<close> calls
  belongs to the messaging SDK and is not part of the sources. The envelope is the packed
  sequence nonce (8 bytes), source chain (4 bytes), delivered amount (32 bytes),
  origin identifier (32 bytes), then the inner payload; each accessor slices its field.
\<close>

definition OFTComposeMsgCodec_encode ::
  "uint64 \<Rightarrow> uint32 \<Rightarrow> uint256 \<Rightarrow> bytes32 \<Rightarrow> bytes \<Rightarrow> bytes" where
  "OFTComposeMsgCodec_encode n e a cf cm =
     be_bytes 8 (unat n) @ be_bytes 4 (unat e) @ be_bytes 32 (unat a) @ be_bytes 32 (unat cf) @ cm"

definition OFTComposeMsgCodec_nonce :: "bytes \<Rightarrow> error + uint64" where
  "OFTComposeMsgCodec_nonce m =
     and_then (calldata_slice m 0 8) (\<lambda>b. Inr (word_of_nat (be_val b)))"

definition OFTComposeMsgCodec_srcEid :: "bytes \<Rightarrow> error + uint32" where
  "OFTComposeMsgCodec_srcEid m =
     and_then (calldata_slice m 8 12) (\<lambda>b. Inr (word_of_nat (be_val b)))"

definition OFTComposeMsgCodec_amountLD :: "bytes \<Rightarrow> error + uint256" where
  "OFTComposeMsgCodec_amountLD m =
     and_then (calldata_slice m 12 44) (\<lambda>b. Inr (word_of_nat (be_val b)))"

definition OFTComposeMsgCodec_composeFrom :: "bytes \<Rightarrow> error + bytes32" where
  "OFTComposeMsgCodec_composeFrom m =
     and_then (calldata_slice m 44 76) (\<lambda>b. Inr (word_of_nat (be_val b)))"

definition OFTComposeMsgCodec_composeMsg :: "bytes \<Rightarrow> error + bytes" where
  "OFTComposeMsgCodec_composeMsg m = calldata_slice m 76 (length m)"

definition bytes32ToAddress :: "bytes32 \<Rightarrow> address" where
  "bytes32ToAddress b = ucast b"

section \<open>Contract AlphaTokenCrossChainManager\<close>

text \<open>
  The storage of the receiver: the four fields the contract declares, the owner kept by
  its Ownable base, the contract's own address, the state of the token contracts it
  calls, and the log of emitted events. The state of the tokens is a type parameter:
  the receiver only calls \<open>safeTransfer\<close> on the token at \<open>trustedOFT\<close>.
\<close>

record 'tok manager =
  endpoint :: address
  trustedOFT :: address
  totalProcessed :: uint256
  paused :: bool
  owner :: address
  self_address :: address
  tokens :: 'tok
  events :: "event list"

text \<open>
  The call \<open>IERC20(token).safeTransfer(to, value)\<close> made by the contract at \<open>from\<close>:
  given the state of the tokens, the token's address, \<open>from\<close>, \<open>to\<close> and the value, it
  reverts or returns the new state of the tokens.
\<close>

type_synonym 'tok safeTransfer =
  "'tok \<Rightarrow> address \<Rightarrow> address \<Rightarrow> address \<Rightarrow> uint256 \<Rightarrow> error + 'tok"

text \<open>Checked addition on \<open>uint256\<close>: overflow panics with code \<open>0x11\<close>.\<close>

definition checked_add :: "uint256 \<Rightarrow> uint256 \<Rightarrow> error + uint256" where
  "checked_add a b = (if unat a + unat b < 2 ^ 256 then Inr (a + b) else Inl (Panic 17))"

text \<open>
  \<open>lzCompose\<close>, statement by statement. \<open>sender\<close> is \<open>msg.sender\<close>. The values
  \<open>nonce\<close>, \<open>srcEid\<close>, \<open>originalSender\<close> and \<open>burntAmount\<close> are computed and not used,
  as in the source; computing them can revert.
\<close>

definition lzCompose ::
  "'tok safeTransfer \<Rightarrow> 'tok manager \<Rightarrow> address \<Rightarrow> address \<Rightarrow> bytes32 \<Rightarrow> bytes \<Rightarrow> address
     \<Rightarrow> bytes \<Rightarrow> error + 'tok manager" where
  "lzCompose safeTransfer s sender oApp guid message executor extraData =
     (if paused s then Inl ContractPaused
      else if sender \<noteq> endpoint s then Inl UnauthorizedSender
      else if oApp \<noteq> trustedOFT s then Inl UntrustedOApp
      else
        and_then (OFTComposeMsgCodec_nonce message) (\<lambda>nonce.
        and_then (OFTComposeMsgCodec_srcEid message) (\<lambda>srcEid.
        and_then (OFTComposeMsgCodec_amountLD message) (\<lambda>amountLD.
        and_then (OFTComposeMsgCodec_composeFrom message) (\<lambda>composeFromBytes.
        (let originalSender = bytes32ToAddress composeFromBytes in
        and_then (OFTComposeMsgCodec_composeMsg message) (\<lambda>composeMsg.
        and_then (decode composeMsg) (\<lambda>composeData.
        and_then
          (if messageType composeData = CROSS_CHAIN_SEND then
             safeTransfer (tokens s) (trustedOFT s) (self_address s)
               (recipient composeData) amountLD
           else if messageType composeData = BURNT then
             and_then (abi_decode_uint256 (additionalData composeData)) (\<lambda>burntAmount.
               safeTransfer (tokens s) (trustedOFT s) (self_address s)
                 (recipient composeData) amountLD)
           else Inl UnsupportedMessageType) (\<lambda>tok.
        and_then (checked_add (totalProcessed s) amountLD) (\<lambda>newTotal.
          Inr (s\<lparr>tokens := tok, totalProcessed := newTotal,
                 events := events s @
                   [TokensProcessed (recipient composeData) amountLD
                      (messageType composeData)]\<rparr>)))))))))))"

definition updateEndpoint :: "'tok manager \<Rightarrow> address \<Rightarrow> address \<Rightarrow> error + 'tok manager" where
  "updateEndpoint s sender newEndpoint =
     (if sender \<noteq> owner s then Inl (OwnableUnauthorizedAccount sender)
      else if newEndpoint = 0 then Inl ZeroAddress
      else Inr (s\<lparr>endpoint := newEndpoint,
                  events := events s @ [EndpointUpdated (endpoint s) newEndpoint]\<rparr>))"

definition updateTrustedOFT :: "'tok manager \<Rightarrow> address \<Rightarrow> address \<Rightarrow> error + 'tok manager" where
  "updateTrustedOFT s sender newTrustedOFT =
     (if sender \<noteq> owner s then Inl (OwnableUnauthorizedAccount sender)
      else if newTrustedOFT = 0 then Inl ZeroAddress
      else Inr (s\<lparr>trustedOFT := newTrustedOFT,
                  events := events s @ [TrustedOFTUpdated (trustedOFT s) newTrustedOFT]\<rparr>))"

definition setPaused :: "'tok manager \<Rightarrow> address \<Rightarrow> bool \<Rightarrow> error + 'tok manager" where
  "setPaused s sender p =
     (if sender \<noteq> owner s then Inl (OwnableUnauthorizedAccount sender)
      else Inr (s\<lparr>paused := p, events := events s @ [PausedStateChanged p]\<rparr>))"

definition emergencyWithdraw ::
  "'tok safeTransfer \<Rightarrow> 'tok manager \<Rightarrow> address \<Rightarrow> address \<Rightarrow> address \<Rightarrow> uint256
     \<Rightarrow> error + 'tok manager" where
  "emergencyWithdraw safeTransfer s sender token to amount =
     (if sender \<noteq> owner s then Inl (OwnableUnauthorizedAccount sender)
      else if to = 0 then Inl ZeroAddress
      else and_then (safeTransfer (tokens s) token (self_address s) to amount)
             (\<lambda>tok. Inr (s\<lparr>tokens := tok\<rparr>)))"

subsection \<open>A concrete token\<close>

text \<open>
  A token ledger to instantiate the parameter with: for each token address the balance
  of each holder. A transfer to the zero address and a transfer of more than the sender
  holds revert; otherwise the value moves from the sender to the receiver.
\<close>

type_synonym ledger = "address \<Rightarrow> address \<Rightarrow> nat"

definition erc20_safeTransfer :: "ledger safeTransfer" where
  "erc20_safeTransfer L token from to v =
     (if to = 0 then Inl (ERC20InvalidReceiver 0)
      else if L token from < unat v then Inl (ERC20InsufficientBalance from (L token from) v)
      else Inr (L(token := ((L token)(from := L token from - unat v))
                             (to := ((L token)(from := L token from - unat v)) to + unat v))))"

subsection \<open>An example deployment\<close>

text \<open>
  A receiver with endpoint \<open>1\<close>, trusted OFT \<open>2\<close>, owner \<open>3\<close>, deployed at address
  \<open>4\<close> and holding 1000 units of the token at address \<open>2\<close>; and an envelope with
  nonce 7, source chain 30101, delivered amount 100 and origin identifier 8 around a
  given payload.
\<close>

definition example_ledger :: ledger where
  "example_ledger = (\<lambda>token holder. if token = 2 \<and> holder = 4 then 1000 else 0)"

definition example_manager :: "ledger manager" where
  "example_manager =
     \<lparr>endpoint = 1, trustedOFT = 2, totalProcessed = 0, paused = False, owner = 3,
      self_address = 4, tokens = example_ledger, events = []\<rparr>"

definition example_envelope :: "bytes \<Rightarrow> bytes" where
  "example_envelope payload = OFTComposeMsgCodec_encode 7 30101 100 8 payload"

section \<open>Contract AlphaOFT\<close>

record SendParam =
  dstEid :: uint32
  to :: bytes32
  amountLD :: uint256
  minAmountLD :: uint256
  extraOptions :: bytes
  composeMsg :: bytes
  oftCmd :: bytes

record MessagingFee =
  nativeFee :: uint256
  lzTokenFee :: uint256

text \<open>
  The storage of the initiator that its own code reads: the manager registered for each
  destination, the peers of the OApp base, the owner of the Ownable base, and the log of
  events. Everything else the inherited OFT keeps (balances, transport) is the type
  parameter \<open>'core\<close>.
\<close>

record 'core AlphaOFT =
  crossChainManagers :: "uint32 \<Rightarrow> address"
  peers :: "uint32 \<Rightarrow> bytes32"
  oft_owner :: address
  core :: 'core
  oft_events :: "event list"

text \<open>
  The two entry points of the inherited OFT that the initiator calls on itself:
  \<open>this.quoteSend(sendParam, payInLzToken)\<close>, a view, and
  \<open>this.send{value: v}(sendParam, fee, refundAddress)\<close>. They are parameters of the model.
\<close>

type_synonym 'core quoteSend =
  "'core AlphaOFT \<Rightarrow> SendParam \<Rightarrow> bool \<Rightarrow> error + MessagingFee"

type_synonym 'core send =
  "'core AlphaOFT \<Rightarrow> SendParam \<Rightarrow> MessagingFee \<Rightarrow> address \<Rightarrow> uint256
     \<Rightarrow> error + 'core AlphaOFT"

text \<open>The modifier \<open>validDestination\<close>: its three checks, in the order of the source.\<close>

definition validDestination :: "'core AlphaOFT \<Rightarrow> uint32 \<Rightarrow> error + unit" where
  "validDestination s eid =
     (if eid = 0 then Inl InvalidEndpointId
      else if peers s eid = 0 then Inl NoPeerConfigured
      else if crossChainManagers s eid = 0 then Inl NoCrossChainManager
      else Inr ())"

definition addressToBytes32 :: "address \<Rightarrow> bytes32" where
  "addressToBytes32 a = ucast a"

definition setCrossChainManager ::
  "'core AlphaOFT \<Rightarrow> address \<Rightarrow> uint32 \<Rightarrow> address \<Rightarrow> error + 'core AlphaOFT" where
  "setCrossChainManager s sender eid crossChainManager =
     (if sender \<noteq> oft_owner s then Inl (OwnableUnauthorizedAccount sender)
      else if eid = 0 then Inl InvalidEndpointId
      else if crossChainManager = 0 then Inl ZeroAddress
      else Inr (s\<lparr>crossChainManagers := (crossChainManagers s)(eid := crossChainManager),
                  oft_events := oft_events s @
                    [CrossChainManagerUpdated eid (crossChainManagers s eid) crossChainManager]\<rparr>))"

text \<open>
  \<open>quoteSendComposed\<close> up to its call of \<open>quoteSend\<close>: the modifier, the encoding of
  the compose message and the construction of the send parameters. The literal
  \<open>"0x"\<close> given for \<open>oftCmd\<close> is the two characters \<open>0\<close> and \<open>x\<close>.
\<close>

definition quoteSendComposed_sendParam ::
  "'core AlphaOFT \<Rightarrow> address \<Rightarrow> uint256 \<Rightarrow> uint32 \<Rightarrow> MessageType \<Rightarrow> bytes
     \<Rightarrow> error + SendParam" where
  "quoteSendComposed_sendParam s recipient_to amount eid mt extraOpts =
     and_then (validDestination s eid) (\<lambda>u.
       (let crossChainManager = crossChainManagers s eid in
        and_then
          (if mt = CROSS_CHAIN_SEND then Inr (encodeCrossChainSend recipient_to)
           else if mt = BURNT then Inr (encodeBurnt recipient_to amount)
           else Inl (RevertString ''Invalid message type'')) (\<lambda>cm.
        Inr \<lparr>dstEid = eid, to = addressToBytes32 crossChainManager, amountLD = amount,
             minAmountLD = amount, extraOptions = extraOpts, composeMsg = cm,
             oftCmd = [48, 120]\<rparr>)))"

definition quoteSendComposed ::
  "'core quoteSend \<Rightarrow> 'core AlphaOFT \<Rightarrow> address \<Rightarrow> uint256 \<Rightarrow> uint32 \<Rightarrow> MessageType
     \<Rightarrow> bool \<Rightarrow> bytes \<Rightarrow> error + MessagingFee" where
  "quoteSendComposed quoteSend s recipient_to amount eid mt payInLzToken extraOpts =
     and_then (quoteSendComposed_sendParam s recipient_to amount eid mt extraOpts)
       (\<lambda>sendParam. quoteSend s sendParam payInLzToken)"

text \<open>
  The internal \<open>_sendComposed\<close>, likewise: first the part up to the send parameters,
  then the quote, the send with the fee value, and the event.
\<close>

definition sendComposed_sendParam ::
  "'core AlphaOFT \<Rightarrow> address \<Rightarrow> uint256 \<Rightarrow> uint32 \<Rightarrow> MessageType \<Rightarrow> bytes
     \<Rightarrow> error + SendParam" where
  "sendComposed_sendParam s recipient_to amount eid mt extraOpts =
     and_then (validDestination s eid) (\<lambda>u.
       (let crossChainManager = crossChainManagers s eid in
        and_then
          (if mt = CROSS_CHAIN_SEND then Inr (encodeCrossChainSend recipient_to)
           else if mt = BURNT then Inr (encodeBurnt recipient_to amount)
           else Inl (RevertString ''Invalid message type'')) (\<lambda>cm.
        Inr \<lparr>dstEid = eid, to = addressToBytes32 crossChainManager, amountLD = amount,
             minAmountLD = amount, extraOptions = extraOpts, composeMsg = cm,
             oftCmd = [48, 120]\<rparr>)))"

definition sendComposed_internal ::
  "'core quoteSend \<Rightarrow> 'core send \<Rightarrow> 'core AlphaOFT \<Rightarrow> address \<Rightarrow> address \<Rightarrow> uint256
     \<Rightarrow> uint32 \<Rightarrow> MessageType \<Rightarrow> bool \<Rightarrow> bytes \<Rightarrow> error + 'core AlphaOFT" where
  "sendComposed_internal quoteSend send s sender recipient_to amount eid mt payInLzToken extraOpts =
     and_then (sendComposed_sendParam s recipient_to amount eid mt extraOpts) (\<lambda>sendParam.
     and_then (quoteSend s sendParam payInLzToken) (\<lambda>msgFee.
       (let feeValue = (if payInLzToken then 0 else nativeFee msgFee) in
        and_then (send s sendParam msgFee sender feeValue) (\<lambda>s'.
          Inr (s'\<lparr>oft_events := oft_events s' @
                 [CrossChainSendInitiated recipient_to amount eid]\<rparr>)))))"

text \<open>The external \<open>sendComposed\<close>: \<open>onlyOwner\<close>, then the internal function.\<close>

definition sendComposed ::
  "'core quoteSend \<Rightarrow> 'core send \<Rightarrow> 'core AlphaOFT \<Rightarrow> address \<Rightarrow> address \<Rightarrow> uint256
     \<Rightarrow> uint32 \<Rightarrow> MessageType \<Rightarrow> bool \<Rightarrow> bytes \<Rightarrow> error + 'core AlphaOFT" where
  "sendComposed quoteSend send s sender recipient_to amount eid mt payInLzToken extraOpts =
     (if sender \<noteq> oft_owner s then Inl (OwnableUnauthorizedAccount sender)
      else sendComposed_internal quoteSend send s sender recipient_to amount eid mt
             payInLzToken extraOpts)"

subsection \<open>An example initiator\<close>

text \<open>
  An initiator owned by \<open>3\<close> with peers on the chains 40161 and 40168 and a manager
  (address \<open>4\<close>) registered for 40168 only; a quote that always answers the same fee and
  a send that always succeeds.
\<close>

definition example_oft :: "unit AlphaOFT" where
  "example_oft =
     \<lparr>crossChainManagers = (\<lambda>eid. if eid = 40168 then 4 else 0),
      peers = (\<lambda>eid. if eid = 40161 \<or> eid = 40168 then 9 else 0),
      oft_owner = 3, core = (), oft_events = []\<rparr>"

definition example_quoteSend :: "unit quoteSend" where
  "example_quoteSend s sendParam payInLzToken = Inr \<lparr>nativeFee = 1, lzTokenFee = 0\<rparr>"

definition example_send :: "unit send" where
  "example_send s sendParam fee refundAddress feeValue = Inr s"

section \<open>Properties of the encoding\<close>

subsection \<open>Big-endian words\<close>

lemma length_be_bytes [simp]: "length (be_bytes k n) = k"
  by (induction k arbitrary: n) simp_all

lemma be_val_snoc: "be_val (bs @ [b]) = be_val bs * 256 + unat b"
  by (simp add: be_val_def)

lemma be_val_be_bytes: "be_val (be_bytes k n) = n mod 256 ^ k"
proof (induction k arbitrary: n)
  case 0
  show ?case by (simp add: be_val_def)
next
  case (Suc k)
  have "be_val (be_bytes (Suc k) n) = (n div 256) mod 256 ^ k * 256 + n mod 256"
    by (simp add: Suc be_val_snoc unat_of_nat)
  also have "\<dots> = n mod 256 ^ Suc k"
    by (simp add: mod_mult2_eq mult.commute)
  finally show ?case .
qed

lemma word_of_be_bytes:
  fixes w :: "'a::len word"
  assumes "LENGTH('a) = 8 * k"
  shows "word_of_nat (be_val (be_bytes k (unat w))) = w"
proof -
  have "(256::nat) ^ k = 2 ^ LENGTH('a)"
    using assms by (simp add: power_mult)
  moreover have "unat w < 2 ^ LENGTH('a)"
    by (rule unsigned_less)
  ultimately have "be_val (be_bytes k (unat w)) = unat w"
    by (simp add: be_val_be_bytes)
  then show ?thesis by simp
qed

lemma unat_address_bound: "unat (r :: address) < 2 ^ 160"
  using unsigned_less [of r, where ?'a = nat] by simp

lemma unat_uint256_bound: "unat (v :: uint256) < 2 ^ 256"
  using unsigned_less [of v, where ?'a = nat] by simp

lemma MessageType_nat_inverse: "nat_to_MessageType (MessageType_to_nat t) = t"
  by (cases t) (simp_all add: nat_to_MessageType_def)

lemma MessageType_to_nat_less: "MessageType_to_nat t < 2"
  by (cases t) simp_all

lemma take_pad32: "take (length ad) (pad32 ad) = ad"
  by (simp add: pad32_def)

lemma mload_tag_word:
  "length h0 = 32 \<Longrightarrow> mload (h0 @ be_bytes 32 v @ rest) 32 = v mod 256 ^ 32"
  by (simp add: mload_def be_val_be_bytes)

subsection \<open>Decoding what was encoded\<close>

text \<open>
  The decoder on data whose first three words are given.
\<close>

lemma abi_decode_tuple_words:
  assumes "length h0 = 32" "length h1 = 32" "length h2 = 32"
  shows "abi_decode_tuple (h0 @ h1 @ h2 @ rest) =
     (if 2 ^ 160 \<le> be_val h0 then Inl RevertEmpty
      else if 2 \<le> be_val h1 then Inl RevertEmpty
      else if 2 ^ 64 \<le> be_val h2 then Inl RevertEmpty
      else if \<not> be_val h2 + 31 < 96 + length rest then Inl RevertEmpty
      else if 2 ^ 64 \<le> mload (h0 @ h1 @ h2 @ rest) (be_val h2) then Inl (Panic 65)
      else if 96 + length rest < be_val h2 + 32 + mload (h0 @ h1 @ h2 @ rest) (be_val h2)
        then Inl RevertEmpty
      else Inr (word_of_nat (be_val h0), nat_to_MessageType (be_val h1),
                take (mload (h0 @ h1 @ h2 @ rest) (be_val h2))
                  (drop (be_val h2 + 32) (h0 @ h1 @ h2 @ rest))))"
proof -
  have m0: "mload (h0 @ h1 @ h2 @ rest) 0 = be_val h0"
    using assms by (simp add: mload_def)
  have m1: "mload (h0 @ h1 @ h2 @ rest) 32 = be_val h1"
    using assms by (simp add: mload_def)
  have m2: "mload (h0 @ h1 @ h2 @ rest) 64 = be_val h2"
    using assms by (simp add: mload_def)
  have len: "length (h0 @ h1 @ h2 @ rest) = 96 + length rest"
    using assms by simp
  show ?thesis
    unfolding abi_decode_tuple_def m0 m1 m2 len by simp
qed

text \<open>
  Decoding an encoded tuple returns the tuple, whatever bytes follow the encoding. The
  bound on the length is that of the decoder's own check.
\<close>

lemma abi_decode_encode_tuple_extra:
  assumes "length ad < 2 ^ 64"
  shows "abi_decode_tuple (abi_encode_tuple r t ad @ extra) = Inr (r, t, ad)"
proof -
  let ?h0 = "be_bytes 32 (unat r)"
  let ?h1 = "be_bytes 32 (MessageType_to_nat t)"
  let ?h2 = "be_bytes 32 96"
  let ?rest = "be_bytes 32 (length ad) @ pad32 ad @ extra"
  let ?d = "?h0 @ ?h1 @ ?h2 @ ?rest"
  have v0: "be_val ?h0 = unat r"
    using unat_address_bound [of r] by (simp add: be_val_be_bytes)
  have v1: "be_val ?h1 = MessageType_to_nat t"
    using MessageType_to_nat_less [of t] by (simp add: be_val_be_bytes)
  have v2: "be_val ?h2 = 96"
    by (simp add: be_val_be_bytes)
  have "length ad < 2 ^ 256"
    using assms by (rule less_trans) simp
  then have vl: "be_val (be_bytes 32 (length ad)) = length ad"
    by (simp add: be_val_be_bytes)
  have ml: "mload ?d 96 = length ad"
    by (simp add: mload_def vl)
  have dr: "drop 128 ?d = pad32 ad @ extra"
    by simp
  have lp: "length ad \<le> length (pad32 ad)"
    by (simp add: pad32_def)
  have tk: "take (length ad) (pad32 ad @ extra) = ad"
    by (simp add: pad32_def)
  have "abi_decode_tuple ?d = Inr (r, t, ad)"
    using assms unat_address_bound [of r] MessageType_to_nat_less [of t] lp
    by (subst abi_decode_tuple_words)
       (simp_all add: v0 v1 v2 ml dr tk take_pad32 MessageType_nat_inverse)
  then show ?thesis
    by (simp add: abi_encode_tuple_def)
qed

lemma abi_decode_encode_tuple:
  "length ad < 2 ^ 64 \<Longrightarrow> abi_decode_tuple (abi_encode_tuple r t ad) = Inr (r, t, ad)"
  using abi_decode_encode_tuple_extra [of ad r t "[]"] by simp

lemma abi_decode_encode_uint256: "abi_decode_uint256 (abi_encode_uint256 v) = Inr v"
proof -
  have "mload (be_bytes 32 (unat v)) 0 = unat v"
    using unat_uint256_bound [of v] by (simp add: mload_def be_val_be_bytes)
  then show ?thesis
    by (simp add: abi_decode_uint256_def abi_encode_uint256_def)
qed

lemma length_abi_encode_uint256: "length (abi_encode_uint256 v) = 32"
  by (simp add: abi_encode_uint256_def)

lemma length_abi_encode_tuple:
  "length (abi_encode_tuple r t ad) = 128 + length (pad32 ad)"
  by (simp add: abi_encode_tuple_def)

lemma length_encodeCrossChainSend: "length (encodeCrossChainSend r) = 128"
  by (simp add: encodeCrossChainSend_def encode_def length_abi_encode_tuple pad32_def)

lemma length_encodeBurnt: "length (encodeBurnt r amount) = 160"
  by (simp add: encodeBurnt_def encode_def length_abi_encode_tuple pad32_def
      length_abi_encode_uint256)

lemma decode_Inl: "abi_decode_tuple d = Inl e \<Longrightarrow> decode d = Inl e"
  by (simp add: decode_def)

lemma decode_Inr:
  "abi_decode_tuple d = Inr (r, t, ad) \<Longrightarrow>
   decode d = Inr \<lparr>recipient = r, messageType = t, additionalData = ad\<rparr>"
  by (simp add: decode_def)

lemma decode_encode:
  "length ad < 2 ^ 64 \<Longrightarrow>
   decode (encode r t ad) = Inr \<lparr>recipient = r, messageType = t, additionalData = ad\<rparr>"
  by (simp add: decode_def encode_def abi_decode_encode_tuple)

lemma decode_encodeBurnt:
  "decode (encodeBurnt r amount) =
     Inr \<lparr>recipient = r, messageType = BURNT, additionalData = abi_encode_uint256 amount\<rparr>"
  by (simp add: encodeBurnt_def decode_encode length_abi_encode_uint256)

lemma decode_encodeCrossChainSend:
  "decode (encodeCrossChainSend r) =
     Inr \<lparr>recipient = r, messageType = CROSS_CHAIN_SEND, additionalData = []\<rparr>"
  by (simp add: encodeCrossChainSend_def decode_encode)

lemma getBurntAmount_encodeBurnt: "getBurntAmount (encodeBurnt r amount) = Inr amount"
  by (simp add: encodeBurnt_def getBurntAmount_def encode_def abi_decode_encode_tuple
      length_abi_encode_uint256 abi_decode_encode_uint256)

subsection \<open>Round trips of the two encoders\<close>

text \<open>
  Claim C6. For every recipient and amount, decoding \<open>encodeBurnt recipient amount\<close>
  succeeds and returns the recipient (with tag \<open>BURNT\<close> and the encoded amount as
  additional data), and \<open>getBurntAmount\<close> of the same bytes returns the amount.
\<close>

theorem encodeBurnt_roundtrip:
  "decode (encodeBurnt r amount) =
     Inr \<lparr>recipient = r, messageType = BURNT, additionalData = abi_encode_uint256 amount\<rparr>
   \<and> getBurntAmount (encodeBurnt r amount) = Inr amount"
  by (simp add: encodeBurnt_def decode_def encode_def getBurntAmount_def
      abi_decode_encode_tuple length_abi_encode_uint256 abi_decode_encode_uint256)

text \<open>
  Claim C7. For every recipient, decoding \<open>encodeCrossChainSend recipient\<close> gives the
  tag \<open>CROSS_CHAIN_SEND\<close> with empty additional data, and \<open>getBurntAmount\<close> of the
  same bytes fails with the reason of its \<open>require\<close>, "not a BURNT message".
\<close>

theorem encodeCrossChainSend_roundtrip:
  "decode (encodeCrossChainSend r) =
     Inr \<lparr>recipient = r, messageType = CROSS_CHAIN_SEND, additionalData = []\<rparr>
   \<and> getBurntAmount (encodeCrossChainSend r) =
       Inl (RevertString ''ComposeMsg: not a BURNT message'')"
  by (simp add: encodeCrossChainSend_def decode_def encode_def getBurntAmount_def
      abi_decode_encode_tuple)

subsection \<open>Truncated, extended and mutated encodings\<close>

text \<open>
  Cutting an encoding anywhere before the end of its data field makes the decoder
  revert: either the head is incomplete, or the length word is, or the data is shorter
  than its length.
\<close>

lemma abi_decode_tuple_truncated:
  assumes "length ad < 2 ^ 64" and "n < 128 + length ad"
  shows "abi_decode_tuple (take n (abi_encode_tuple r t ad)) = Inl RevertEmpty"
proof (cases "n < 96")
  case True
  then have "length (take n (abi_encode_tuple r t ad)) < 96"
    by simp
  then show ?thesis
    by (simp add: abi_decode_tuple_def)
next
  case False
  let ?h0 = "be_bytes 32 (unat r)"
  let ?h1 = "be_bytes 32 (MessageType_to_nat t)"
  let ?h2 = "be_bytes 32 96"
  let ?L = "be_bytes 32 (length ad)"
  let ?rest = "take (n - 96) (?L @ pad32 ad)"
  have tk: "take n (abi_encode_tuple r t ad) = ?h0 @ ?h1 @ ?h2 @ ?rest"
    using False by (simp add: abi_encode_tuple_def)
  have v2: "be_val ?h2 = 96"
    by (simp add: be_val_be_bytes)
  have lr: "length ?rest \<le> n - 96"
    by simp
  show ?thesis
  proof (cases "n < 128")
    case True
    then have "\<not> be_val ?h2 + 31 < 96 + length ?rest"
      using lr v2 by simp
    then show ?thesis
      unfolding tk by (subst abi_decode_tuple_words) simp_all
  next
    case n128: False
    have "length ad < 2 ^ 256"
      using assms(1) by (rule less_trans) simp
    then have vl: "be_val ?L = length ad"
      by (simp add: be_val_be_bytes)
    have r: "?rest = ?L @ take (n - 128) (pad32 ad)"
      using n128 by simp
    have ml: "mload (?h0 @ ?h1 @ ?h2 @ ?rest) 96 = length ad"
      unfolding r by (simp add: mload_def vl)
    have "96 + length ?rest < 96 + 32 + length ad"
      using lr assms(2) False by simp
    then show ?thesis
      using assms(1) unfolding tk
      by (subst abi_decode_tuple_words) (simp_all add: v2 ml del: take_append)
  qed
qed

text \<open>
  Overwriting the last byte of a 32-byte word changes the word's value within the same
  multiple of 256.
\<close>

lemma be_bytes_last:
  "0 < k \<Longrightarrow> be_bytes k n = be_bytes (k - 1) (n div 256) @ [word_of_nat (n mod 256)]"
  by (cases k) simp_all

lemma be_bytes_set_last:
  assumes "0 < k" "n div 256 = n' div 256" "b = word_of_nat (n' mod 256)"
  shows "(be_bytes k n)[k - 1 := b] = be_bytes k n'"
  using assms by (simp add: be_bytes_last list_update_append)

lemma encodeCrossChainSend_mutate_recipient:
  "(encodeCrossChainSend 6)[31 := 7] = encodeCrossChainSend 7"
proof -
  have "(be_bytes 32 6)[32 - 1 := 7] = be_bytes 32 7"
    by (rule be_bytes_set_last) simp_all
  then show ?thesis
    by (simp add: encodeCrossChainSend_def encode_def abi_encode_tuple_def list_update_append)
qed

lemma encodeCrossChainSend_mutate_tag:
  "(encodeCrossChainSend 6)[63 := 1] = encode 6 BURNT []"
proof -
  have "(be_bytes 32 0)[32 - 1 := 1] = be_bytes 32 1"
    by (rule be_bytes_set_last) simp_all
  then show ?thesis
    by (simp add: encodeCrossChainSend_def encode_def abi_encode_tuple_def list_update_append)
qed

text \<open>
  A byte of a big-endian word weighs its value times the power of 256 of its position.
  Hence the padding bytes of a small word are zero, and overwriting one of them either
  changes nothing or makes the word large.
\<close>

lemma be_val_lower:
  "i < length xs \<Longrightarrow> unat (xs ! i) * 256 ^ (length xs - Suc i) \<le> be_val xs"
proof (induction xs arbitrary: i rule: rev_induct)
  case Nil
  then show ?case by simp
next
  case (snoc x xs)
  show ?case
  proof (cases "i < length xs")
    case True
    then have "unat (xs ! i) * 256 ^ (length xs - Suc i) \<le> be_val xs"
      by (rule snoc.IH)
    then have "unat (xs ! i) * 256 ^ (length xs - Suc i) * 256 \<le> be_val xs * 256"
      by (rule mult_le_mono1)
    moreover have "length xs - i = Suc (length xs - Suc i)"
      using True by arith
    then have "(256::nat) ^ (length xs - i) = 256 ^ (length xs - Suc i) * 256"
      by simp
    ultimately show ?thesis
      using True by (simp add: be_val_snoc nth_append)
  next
    case False
    with snoc.prems have "i = length xs" by simp
    then show ?thesis
      by (simp add: be_val_snoc)
  qed
qed

lemma padding_byte_is_zero:
  assumes "length xs = 32" "be_val xs < 256 ^ k" "i + k < 32"
  shows "xs ! i = 0"
proof -
  have i: "i < length xs" using assms by simp
  have le: "(256::nat) ^ k \<le> 256 ^ (length xs - Suc i)"
    using assms by (intro power_increasing) simp_all
  have "unat (xs ! i) * 256 ^ (length xs - Suc i) < 256 ^ (length xs - Suc i)"
    using be_val_lower [OF i] assms(2) le by linarith
  then have "unat (xs ! i) = 0"
    by (cases "unat (xs ! i)") simp_all
  then show ?thesis
    by (simp add: unsigned_eq_0_iff)
qed

lemma padding_byte_zero:
  assumes "length xs = 32" "be_val xs < 256 ^ k" "i + k < 32"
  shows "xs[i := 0] = xs"
  using padding_byte_is_zero [OF assms] assms(1,3) by (simp add: list_update_same_conv)

lemma mutate_padding_byte:
  assumes "length xs = 32" "be_val xs < 256 ^ k" "i + k < 32"
  shows "xs[i := b] = xs \<or> 256 ^ k \<le> be_val (xs[i := b])"
proof (cases "b = 0")
  case True
  then show ?thesis
    using padding_byte_zero [OF assms] by simp
next
  case False
  have i: "i < length (xs[i := b])" using assms by simp
  have "unat b \<noteq> 0"
    using False by (simp add: unsigned_eq_0_iff)
  then have "0 < unat b"
    by simp
  then have "(256::nat) ^ (length xs - Suc i) \<le> unat b * 256 ^ (length xs - Suc i)"
    by simp
  moreover have "(256::nat) ^ k \<le> 256 ^ (length xs - Suc i)"
    using assms by (intro power_increasing) simp_all
  moreover have "unat b * 256 ^ (length xs - Suc i) \<le> be_val (xs[i := b])"
    using be_val_lower [OF i] assms by simp
  ultimately show ?thesis by linarith
qed

text \<open>
  A word read from the data does not depend on bytes beyond it, and the recipient and
  the tag of a decoded tuple are read from the first two words.
\<close>

lemma mload_list_update:
  "p + 32 \<le> i \<Longrightarrow> mload (d[i := b]) p = mload d p"
  by (simp add: mload_def drop_update_swap)

lemma abi_decode_tuple_Inr_fields:
  "abi_decode_tuple d = Inr (a, m, x) \<Longrightarrow>
   a = word_of_nat (mload d 0) \<and> m = nat_to_MessageType (mload d 32)"
  by (simp add: abi_decode_tuple_def split: if_splits)

lemma mload_abi_encode_tuple_0: "mload (abi_encode_tuple r t ad) 0 = unat r"
  using unat_address_bound [of r]
  by (simp add: abi_encode_tuple_def mload_def be_val_be_bytes)

lemma mload_abi_encode_tuple_32: "mload (abi_encode_tuple r t ad) 32 = MessageType_to_nat t"
  using MessageType_to_nat_less [of t]
  by (simp add: abi_encode_tuple_def mload_def be_val_be_bytes)

text \<open>
  One overwritten byte of an encoding. From byte 64 on, the first two words are
  untouched. In the padding of the recipient (bytes 0 to 11) and of the tag (bytes 32 to
  62) the byte was zero: writing zero changes nothing, and anything else is rejected by
  the decoder's check of that word.
\<close>

lemma abi_decode_tuple_mutated_tail:
  assumes "64 \<le> i" "abi_decode_tuple ((abi_encode_tuple r t ad)[i := b]) = Inr (a, m, x)"
  shows "a = r \<and> m = t"
  using abi_decode_tuple_Inr_fields [OF assms(2)] assms(1)
  by (simp add: mload_list_update mload_abi_encode_tuple_0 mload_abi_encode_tuple_32
      MessageType_nat_inverse)

lemma abi_decode_tuple_mutated_padding:
  assumes "i < 12 \<or> (32 \<le> i \<and> i < 63)"
  shows "(abi_encode_tuple r t ad)[i := b] = abi_encode_tuple r t ad
       \<or> abi_decode_tuple ((abi_encode_tuple r t ad)[i := b]) = Inl RevertEmpty"
proof -
  let ?h0 = "be_bytes 32 (unat r)"
  let ?h1 = "be_bytes 32 (MessageType_to_nat t)"
  let ?T = "be_bytes 32 96 @ be_bytes 32 (length ad) @ pad32 ad"
  have e: "abi_encode_tuple r t ad = ?h0 @ ?h1 @ ?T"
    by (simp add: abi_encode_tuple_def)
  have v0: "be_val ?h0 = unat r"
    using unat_address_bound [of r] by (simp add: be_val_be_bytes)
  have v1: "be_val ?h1 = MessageType_to_nat t"
    using MessageType_to_nat_less [of t] by (simp add: be_val_be_bytes)
  from assms show ?thesis
  proof
    assume i: "i < 12"
    have u: "(?h0 @ ?h1 @ ?T)[i := b] = ?h0[i := b] @ ?h1 @ ?T"
      using i by (simp add: list_update_append)
    have "be_val ?h0 < 256 ^ 20"
      using unat_address_bound [of r] by (simp add: v0)
    then have "?h0[i := b] = ?h0 \<or> 256 ^ 20 \<le> be_val (?h0[i := b])"
      using i by (intro mutate_padding_byte) simp_all
    then show ?thesis
    proof
      assume "?h0[i := b] = ?h0"
      then show ?thesis by (simp add: e u)
    next
      assume "256 ^ 20 \<le> be_val (?h0[i := b])"
      then have "2 ^ 160 \<le> mload (?h0[i := b] @ ?h1 @ ?T) 0"
        by (simp add: mload_def)
      then have "abi_decode_tuple (?h0[i := b] @ ?h1 @ ?T) = Inl RevertEmpty"
        by (simp add: abi_decode_tuple_def)
      then show ?thesis by (simp add: e u)
    qed
  next
    assume i: "32 \<le> i \<and> i < 63"
    then have j: "i - 32 < 32" "\<not> i < 32" "i - 32 + 1 < 32"
      by arith+
    have u: "(?h0 @ ?h1 @ ?T)[i := b] = ?h0 @ ?h1[i - 32 := b] @ ?T"
      using j by (simp add: list_update_append)
    have "be_val ?h1 < 256 ^ 1"
      using MessageType_to_nat_less [of t] by (simp add: v1)
    then have "?h1[i - 32 := b] = ?h1 \<or> 256 ^ 1 \<le> be_val (?h1[i - 32 := b])"
      using j(3) by (intro mutate_padding_byte) simp_all
    then show ?thesis
    proof
      assume "?h1[i - 32 := b] = ?h1"
      then show ?thesis by (simp add: e u)
    next
      assume "256 ^ 1 \<le> be_val (?h1[i - 32 := b])"
      then have "2 \<le> mload (?h0 @ ?h1[i - 32 := b] @ ?T) 32"
        by (simp add: mload_def)
      then have "abi_decode_tuple (?h0 @ ?h1[i - 32 := b] @ ?T) = Inl RevertEmpty"
        by (simp add: abi_decode_tuple_def)
      then show ?thesis by (simp add: e u)
    qed
  qed
qed

lemma decode_mutated_padding:
  assumes "i < 12 \<or> (32 \<le> i \<and> i < 63)" "decode ((encode r t ad)[i := b]) = Inr cd"
  shows "decode (encode r t ad) = Inr cd"
  using abi_decode_tuple_mutated_padding [OF assms(1), of r t ad b] assms(2)
  by (auto simp add: encode_def decode_def)

lemma decode_mutated_tail:
  assumes "64 \<le> i" "decode ((encode r t ad)[i := b]) = Inr cd"
  shows "recipient cd = r \<and> messageType cd = t"
proof -
  obtain a m x where d: "abi_decode_tuple ((abi_encode_tuple r t ad)[i := b]) = Inr (a, m, x)"
    and cd: "cd = \<lparr>recipient = a, messageType = m, additionalData = x\<rparr>"
    using assms(2) by (auto simp add: decode_def encode_def split: sum.splits)
  from abi_decode_tuple_mutated_tail [OF assms(1) d] cd show ?thesis by simp
qed

text \<open>Overwritten encodings at concrete positions.\<close>

lemma encodeBurnt_mutate_amount: "(encodeBurnt 6 7)[159 := 8] = encodeBurnt 6 8"
proof -
  have "(be_bytes 32 7)[32 - 1 := 8] = be_bytes 32 8"
    by (rule be_bytes_set_last) simp_all
  then show ?thesis
    by (simp add: encodeBurnt_def encode_def abi_encode_tuple_def abi_encode_uint256_def
        pad32_def list_update_append)
qed

lemma abi_encode_tuple_zero_padding:
  assumes "i < 12 \<or> (32 \<le> i \<and> i < 63)"
  shows "(abi_encode_tuple r t ad)[i := 0] = abi_encode_tuple r t ad"
proof -
  let ?h0 = "be_bytes 32 (unat r)"
  let ?h1 = "be_bytes 32 (MessageType_to_nat t)"
  let ?T = "be_bytes 32 96 @ be_bytes 32 (length ad) @ pad32 ad"
  have v0: "be_val ?h0 < 256 ^ 20"
    using unat_address_bound [of r] by (simp add: be_val_be_bytes)
  have v1: "be_val ?h1 < 256 ^ 1"
    using MessageType_to_nat_less [of t] by (simp add: be_val_be_bytes)
  from assms show ?thesis
  proof
    assume i: "i < 12"
    have "?h0[i := 0] = ?h0"
      by (rule padding_byte_zero [where k = 20]) (use v0 i in simp_all)
    then show ?thesis
      using i by (simp add: abi_encode_tuple_def list_update_append)
  next
    assume "32 \<le> i \<and> i < 63"
    then have j: "i - 32 < 32" "\<not> i < 32" "i - 32 + 1 < 32"
      by arith+
    have "?h1[i - 32 := 0] = ?h1"
      by (rule padding_byte_zero [where k = 1]) (use v1 j(3) in simp_all)
    then show ?thesis
      using j by (simp add: abi_encode_tuple_def list_update_append)
  qed
qed

lemma encodeCrossChainSend_mutate_offset:
  "decode ((encodeCrossChainSend 6)[95 := 32]) =
     Inr \<lparr>recipient = 6, messageType = CROSS_CHAIN_SEND, additionalData = []\<rparr>"
proof -
  let ?d = "be_bytes 32 6 @ be_bytes 32 0 @ be_bytes 32 32 @ be_bytes 32 0"
  have "(be_bytes 32 96)[32 - 1 := 32] = be_bytes 32 32"
    by (rule be_bytes_set_last) simp_all
  then have m: "(encodeCrossChainSend 6)[95 := 32] = ?d"
    by (simp add: encodeCrossChainSend_def encode_def abi_encode_tuple_def list_update_append
        pad32_def)
  have t: "mload ?d 32 = 0"
    by (simp add: mload_tag_word)
  have "abi_decode_tuple ?d = Inr (6, CROSS_CHAIN_SEND, [])"
    by (subst abi_decode_tuple_words)
       (simp_all add: be_val_be_bytes t nat_to_MessageType_def)
  then show ?thesis
    by (simp add: m decode_Inr)
qed

text \<open>
  Claim C8, as stated, fails. The encoding of a transfer to address 6 followed by one
  more byte decodes, and to the same tuple as without the byte, so an extra-length sequence
  is not rejected. Overwriting byte 31 (the low byte of the recipient) with 7 decodes to
  the recipient 7, and overwriting byte 63 (the tag) with 1 decodes to the tag
  \<open>BURNT\<close>: a mutation of a single byte can decode to a different recipient or tag.
  Overwriting the last byte of the encoding of a burn of 7 with 8 decodes to a burn of 8:
  a mutation beyond the tag can decode to a different tuple, with the same recipient and
  tag.
\<close>

theorem decode_no_type_confusion_counterexample:
  "decode (encodeCrossChainSend 6 @ [0]) =
     Inr \<lparr>recipient = 6, messageType = CROSS_CHAIN_SEND, additionalData = []\<rparr>
   \<and> decode (encodeCrossChainSend 6) =
     Inr \<lparr>recipient = 6, messageType = CROSS_CHAIN_SEND, additionalData = []\<rparr>
   \<and> decode ((encodeCrossChainSend 6)[31 := 7]) =
     Inr \<lparr>recipient = 7, messageType = CROSS_CHAIN_SEND, additionalData = []\<rparr>
   \<and> decode ((encodeCrossChainSend 6)[63 := 1]) =
     Inr \<lparr>recipient = 6, messageType = BURNT, additionalData = []\<rparr>
   \<and> getBurntAmount (encodeBurnt 6 7) = Inr 7
   \<and> getBurntAmount ((encodeBurnt 6 7)[159 := 8]) = Inr 8"
proof -
  have "decode (encodeCrossChainSend 6 @ [0]) =
     Inr \<lparr>recipient = 6, messageType = CROSS_CHAIN_SEND, additionalData = []\<rparr>"
    by (simp add: encodeCrossChainSend_def encode_def decode_Inr abi_decode_encode_tuple_extra)
  then show ?thesis
    by (simp add: encodeCrossChainSend_mutate_recipient encodeCrossChainSend_mutate_tag
        decode_encodeCrossChainSend decode_encode encodeBurnt_mutate_amount
        getBurntAmount_encodeBurnt)
qed

text \<open>
  Claim C8, amended. Every proper truncation of an encoding produced by
  \<open>encodeCrossChainSend\<close> or \<open>encodeBurnt\<close> is rejected: \<open>abi.decode\<close> reverts. Bytes
  appended to such an encoding are ignored: the extended sequence decodes to the same
  tuple as the encoding itself. A mutation of a single byte of such an encoding in the
  padding of the recipient (bytes 0 to 11) or of the tag (bytes 32 to 62) either fails or
  decodes to the original tuple; a mutation at byte 64 or beyond either fails or decodes
  to a tuple with the original recipient and tag. Only the bytes of the recipient (12 to
  31) and the byte of the tag (63) are left out.
\<close>

theorem decode_truncated_extended_or_mutated:
  "(n < length (encodeCrossChainSend r) \<longrightarrow>
      decode (take n (encodeCrossChainSend r)) = Inl RevertEmpty)
   \<and> (n < length (encodeBurnt r amount) \<longrightarrow>
      decode (take n (encodeBurnt r amount)) = Inl RevertEmpty)
   \<and> decode (encodeCrossChainSend r @ extra) = decode (encodeCrossChainSend r)
   \<and> decode (encodeBurnt r amount @ extra) = decode (encodeBurnt r amount)
   \<and> ((i < 12 \<or> (32 \<le> i \<and> i < 63))
        \<and> decode ((encodeCrossChainSend r)[i := b]) = Inr cd \<longrightarrow>
      cd = \<lparr>recipient = r, messageType = CROSS_CHAIN_SEND, additionalData = []\<rparr>)
   \<and> ((i < 12 \<or> (32 \<le> i \<and> i < 63))
        \<and> decode ((encodeBurnt r amount)[i := b]) = Inr cd \<longrightarrow>
      cd = \<lparr>recipient = r, messageType = BURNT,
             additionalData = abi_encode_uint256 amount\<rparr>)
   \<and> (64 \<le> i \<and> decode ((encodeCrossChainSend r)[i := b]) = Inr cd \<longrightarrow>
      recipient cd = r \<and> messageType cd = CROSS_CHAIN_SEND)
   \<and> (64 \<le> i \<and> decode ((encodeBurnt r amount)[i := b]) = Inr cd \<longrightarrow>
      recipient cd = r \<and> messageType cd = BURNT)"
proof (intro conjI impI)
  assume "n < length (encodeCrossChainSend r)"
  then have "n < 128 + length ([] :: bytes)"
    by (simp add: length_encodeCrossChainSend)
  then show "decode (take n (encodeCrossChainSend r)) = Inl RevertEmpty"
    unfolding encodeCrossChainSend_def encode_def
    by (intro decode_Inl abi_decode_tuple_truncated) simp_all
next
  assume "n < length (encodeBurnt r amount)"
  then have "n < 128 + length (abi_encode_uint256 amount)"
    by (simp add: length_encodeBurnt length_abi_encode_uint256)
  then show "decode (take n (encodeBurnt r amount)) = Inl RevertEmpty"
    unfolding encodeBurnt_def encode_def
    by (intro decode_Inl abi_decode_tuple_truncated)
       (simp_all add: length_abi_encode_uint256)
next
  show "decode (encodeCrossChainSend r @ extra) = decode (encodeCrossChainSend r)"
    by (simp add: decode_encodeCrossChainSend)
       (simp add: encodeCrossChainSend_def encode_def decode_Inr abi_decode_encode_tuple_extra)
next
  show "decode (encodeBurnt r amount @ extra) = decode (encodeBurnt r amount)"
    by (simp add: decode_encodeBurnt)
       (simp add: encodeBurnt_def encode_def decode_Inr abi_decode_encode_tuple_extra
          length_abi_encode_uint256)
next
  assume a: "(i < 12 \<or> (32 \<le> i \<and> i < 63))
        \<and> decode ((encodeCrossChainSend r)[i := b]) = Inr cd"
  then have p: "i < 12 \<or> (32 \<le> i \<and> i < 63)"
    and d: "decode ((encode r CROSS_CHAIN_SEND [])[i := b]) = Inr cd"
    by (simp_all add: encodeCrossChainSend_def)
  from decode_mutated_padding [OF p d]
  show "cd = \<lparr>recipient = r, messageType = CROSS_CHAIN_SEND, additionalData = []\<rparr>"
    by (simp add: decode_encode)
next
  assume a: "(i < 12 \<or> (32 \<le> i \<and> i < 63))
        \<and> decode ((encodeBurnt r amount)[i := b]) = Inr cd"
  then have p: "i < 12 \<or> (32 \<le> i \<and> i < 63)"
    and d: "decode ((encode r BURNT (abi_encode_uint256 amount))[i := b]) = Inr cd"
    by (simp_all add: encodeBurnt_def)
  from decode_mutated_padding [OF p d]
  show "cd = \<lparr>recipient = r, messageType = BURNT,
             additionalData = abi_encode_uint256 amount\<rparr>"
    by (simp add: decode_encode length_abi_encode_uint256)
next
  assume a: "64 \<le> i \<and> decode ((encodeCrossChainSend r)[i := b]) = Inr cd"
  then have p: "64 \<le> i"
    and d: "decode ((encode r CROSS_CHAIN_SEND [])[i := b]) = Inr cd"
    by (simp_all add: encodeCrossChainSend_def)
  from decode_mutated_tail [OF p d]
  show "recipient cd = r" and "messageType cd = CROSS_CHAIN_SEND"
    by simp_all
next
  assume a: "64 \<le> i \<and> decode ((encodeBurnt r amount)[i := b]) = Inr cd"
  then have p: "64 \<le> i"
    and d: "decode ((encode r BURNT (abi_encode_uint256 amount))[i := b]) = Inr cd"
    by (simp_all add: encodeBurnt_def)
  from decode_mutated_tail [OF p d]
  show "recipient cd = r" and "messageType cd = BURNT"
    by simp_all
qed

text \<open>
  The amended claim at the encodings of a transfer to address 6 and of a burn of 7 for
  address 6: cut to 100 and to 159 bytes; with zero written to byte 5 and to byte 40 of
  the padding; with the offset byte 95 set to 32; and with the last byte set to 8.
\<close>

theorem decode_truncated_extended_or_mutated_witness:
  "100 < length (encodeCrossChainSend 6)
   \<and> decode (take 100 (encodeCrossChainSend 6)) = Inl RevertEmpty
   \<and> 159 < length (encodeBurnt 6 7)
   \<and> decode (take 159 (encodeBurnt 6 7)) = Inl RevertEmpty
   \<and> decode ((encodeCrossChainSend 6)[5 := 0]) =
       Inr \<lparr>recipient = 6, messageType = CROSS_CHAIN_SEND, additionalData = []\<rparr>
   \<and> decode ((encodeBurnt 6 7)[40 := 0]) =
       Inr \<lparr>recipient = 6, messageType = BURNT, additionalData = abi_encode_uint256 7\<rparr>
   \<and> (\<exists>cd. decode ((encodeCrossChainSend 6)[95 := 32]) = Inr cd
         \<and> recipient cd = 6 \<and> messageType cd = CROSS_CHAIN_SEND)
   \<and> (\<exists>cd. decode ((encodeBurnt 6 7)[159 := 8]) = Inr cd
         \<and> recipient cd = 6 \<and> messageType cd = BURNT
         \<and> additionalData cd = abi_encode_uint256 8)"
proof -
  note T = decode_truncated_extended_or_mutated [where r = 6 and amount = 7 and extra = "[]"]
  have l1: "100 < length (encodeCrossChainSend 6)"
    by (simp add: length_encodeCrossChainSend)
  have l2: "159 < length (encodeBurnt 6 7)"
    by (simp add: length_encodeBurnt)
  have t1: "decode (take 100 (encodeCrossChainSend 6)) = Inl RevertEmpty"
    using T [where n = 100, THEN conjunct1] l1 by blast
  have t2: "decode (take 159 (encodeBurnt 6 7)) = Inl RevertEmpty"
    using T [where n = 159, THEN conjunct2, THEN conjunct1] l2 by blast
  have z1: "(encodeCrossChainSend 6)[5 := 0] = encodeCrossChainSend 6"
    unfolding encodeCrossChainSend_def encode_def
    by (rule abi_encode_tuple_zero_padding) simp
  have z2: "(encodeBurnt 6 7)[40 := 0] = encodeBurnt 6 7"
    unfolding encodeBurnt_def encode_def
    by (rule abi_encode_tuple_zero_padding) simp
  obtain cd1 where d1: "decode ((encodeCrossChainSend 6)[5 := 0]) = Inr cd1"
    unfolding z1 by (simp add: decode_encodeCrossChainSend)
  obtain cd2 where d2: "decode ((encodeBurnt 6 7)[40 := 0]) = Inr cd2"
    unfolding z2 by (simp add: decode_encodeBurnt)
  obtain cd3 where d3: "decode ((encodeCrossChainSend 6)[95 := 32]) = Inr cd3"
    by (simp add: encodeCrossChainSend_mutate_offset)
  obtain cd4 where d4: "decode ((encodeBurnt 6 7)[159 := 8]) = Inr cd4"
    and a4: "additionalData cd4 = abi_encode_uint256 8"
    unfolding encodeBurnt_mutate_amount by (simp add: decode_encodeBurnt)
  have h5: "(5::nat) < 12 \<or> (32 \<le> (5::nat) \<and> (5::nat) < 63)"
    and h40: "(40::nat) < 12 \<or> (32 \<le> (40::nat) \<and> (40::nat) < 63)"
    and h95: "(64::nat) \<le> 95" and h159: "(64::nat) \<le> 159"
    by simp_all
  have p1: "cd1 = \<lparr>recipient = 6, messageType = CROSS_CHAIN_SEND, additionalData = []\<rparr>"
    using T [where i = 5 and b = 0 and cd = cd1, THEN conjunct2, THEN conjunct2,
        THEN conjunct2, THEN conjunct2, THEN conjunct1] h5 d1
    by blast
  have p2: "cd2 = \<lparr>recipient = 6, messageType = BURNT,
                   additionalData = abi_encode_uint256 7\<rparr>"
    using T [where i = 40 and b = 0 and cd = cd2, THEN conjunct2, THEN conjunct2,
        THEN conjunct2, THEN conjunct2, THEN conjunct2, THEN conjunct1] h40 d2
    by blast
  have p3: "recipient cd3 = 6 \<and> messageType cd3 = CROSS_CHAIN_SEND"
    using T [where i = 95 and b = 32 and cd = cd3, THEN conjunct2, THEN conjunct2,
        THEN conjunct2, THEN conjunct2, THEN conjunct2, THEN conjunct2, THEN conjunct1]
      h95 d3
    by blast
  have p4: "recipient cd4 = 6 \<and> messageType cd4 = BURNT"
    using T [where i = 159 and b = 8 and cd = cd4, THEN conjunct2, THEN conjunct2,
        THEN conjunct2, THEN conjunct2, THEN conjunct2, THEN conjunct2, THEN conjunct2]
      h159 d4
    by blast
  show ?thesis
    using l1 t1 l2 t2 d1 p1 d2 p2 d3 p3 d4 a4 p4 by blast
qed

section \<open>Properties of the receiver\<close>

subsection \<open>The envelope\<close>

lemma OFTComposeMsgCodec_nonce_encode:
  "OFTComposeMsgCodec_nonce (OFTComposeMsgCodec_encode n e a cf cm) = Inr n"
  by (simp add: OFTComposeMsgCodec_nonce_def OFTComposeMsgCodec_encode_def calldata_slice_def
      and_then_def word_of_be_bytes)

lemma OFTComposeMsgCodec_srcEid_encode:
  "OFTComposeMsgCodec_srcEid (OFTComposeMsgCodec_encode n e a cf cm) = Inr e"
  by (simp add: OFTComposeMsgCodec_srcEid_def OFTComposeMsgCodec_encode_def calldata_slice_def
      and_then_def word_of_be_bytes)

lemma OFTComposeMsgCodec_amountLD_encode:
  "OFTComposeMsgCodec_amountLD (OFTComposeMsgCodec_encode n e a cf cm) = Inr a"
  by (simp add: OFTComposeMsgCodec_amountLD_def OFTComposeMsgCodec_encode_def calldata_slice_def
      and_then_def word_of_be_bytes)

lemma OFTComposeMsgCodec_composeFrom_encode:
  "OFTComposeMsgCodec_composeFrom (OFTComposeMsgCodec_encode n e a cf cm) = Inr cf"
  by (simp add: OFTComposeMsgCodec_composeFrom_def OFTComposeMsgCodec_encode_def
      calldata_slice_def and_then_def word_of_be_bytes)

lemma OFTComposeMsgCodec_composeMsg_encode:
  "OFTComposeMsgCodec_composeMsg (OFTComposeMsgCodec_encode n e a cf cm) = Inr cm"
  by (simp add: OFTComposeMsgCodec_composeMsg_def OFTComposeMsgCodec_encode_def
      calldata_slice_def)

lemmas OFTComposeMsgCodec_fields =
  OFTComposeMsgCodec_nonce_encode OFTComposeMsgCodec_srcEid_encode
  OFTComposeMsgCodec_amountLD_encode OFTComposeMsgCodec_composeFrom_encode
  OFTComposeMsgCodec_composeMsg_encode

lemma calldata_slice_error: "calldata_slice m i j = Inl e \<Longrightarrow> e = RevertEmpty"
  by (simp add: calldata_slice_def split: if_splits)

subsection \<open>The handler\<close>

lemma state_after_Inl: "state_after s (Inl e) = s"
  by (simp add: state_after_def)

lemma lzCompose_paused: "paused s \<Longrightarrow> lzCompose xfer s sender oApp guid m ex xd = Inl ContractPaused"
  by (simp add: lzCompose_def)

text \<open>
  The receiver on a well-formed envelope, once the three guards are passed.
\<close>

lemma lzCompose_envelope:
  assumes "\<not> paused s" "sender = endpoint s" "oApp = trustedOFT s"
  shows "lzCompose xfer s sender oApp guid (OFTComposeMsgCodec_encode n e a cf cm) ex xd =
     and_then (decode cm) (\<lambda>cd.
     and_then
       (if messageType cd = CROSS_CHAIN_SEND then
          xfer (tokens s) (trustedOFT s) (self_address s) (recipient cd) a
        else and_then (abi_decode_uint256 (additionalData cd)) (\<lambda>b.
          xfer (tokens s) (trustedOFT s) (self_address s) (recipient cd) a)) (\<lambda>tok.
     and_then (checked_add (totalProcessed s) a) (\<lambda>newTotal.
       Inr (s\<lparr>tokens := tok, totalProcessed := newTotal,
              events := events s @ [TokensProcessed (recipient cd) a (messageType cd)]\<rparr>))))"
proof -
  have mt: "\<And>t. t \<noteq> CROSS_CHAIN_SEND \<Longrightarrow> t = BURNT"
    by (case_tac t) simp_all
  show ?thesis
    using assms
    by (auto simp add: lzCompose_def OFTComposeMsgCodec_fields and_then_def Let_def mt
        split: sum.splits)
qed

text \<open>
  What a successful call has done: the guards held, the envelope and the payload
  decoded, the token was asked once to move the delivered amount from the receiver to the
  payload's recipient, and the total grew by the delivered amount without wrapping.
\<close>

lemma lzCompose_Inr:
  assumes "lzCompose xfer s sender oApp guid m ex xd = Inr s'"
  shows "\<exists>a cm cd. \<not> paused s \<and> sender = endpoint s \<and> oApp = trustedOFT s
     \<and> OFTComposeMsgCodec_amountLD m = Inr a
     \<and> OFTComposeMsgCodec_composeMsg m = Inr cm
     \<and> decode cm = Inr cd
     \<and> xfer (tokens s) (trustedOFT s) (self_address s) (recipient cd) a = Inr (tokens s')
     \<and> unat (totalProcessed s') = unat (totalProcessed s) + unat a
     \<and> s' = s\<lparr>tokens := tokens s', totalProcessed := totalProcessed s + a,
              events := events s @ [TokensProcessed (recipient cd) a (messageType cd)]\<rparr>"
  using assms
  by (auto simp add: lzCompose_def and_then_def Let_def checked_add_def unat_word_ariths
      split: if_splits sum.splits)

lemma example_transfer:
  "erc20_safeTransfer example_ledger 2 4 6 100 =
     Inr (example_ledger(2 := ((example_ledger 2)(4 := 900))(6 := 100)))"
  by (simp add: erc20_safeTransfer_def example_ledger_def)

subsection \<open>Authentication\<close>

text \<open>
  Claim C1. While the receiver is not paused, whatever the message: a caller other than
  the endpoint fails with \<open>UnauthorizedSender\<close>; a call from the endpoint whose
  originating OApp is not the trusted OFT fails with \<open>UntrustedOApp\<close> (the spec's
  UntrustedOrigin); and in both cases the state after the call, token balances and
  \<open>totalProcessed\<close> included, is the state before it. The message is arbitrary, so
  both checks precede every decoding step, and the token is arbitrary, so they precede
  the transfer.
\<close>

theorem lzCompose_authentication:
  assumes "\<not> paused s"
  shows "(sender \<noteq> endpoint s \<longrightarrow>
            lzCompose xfer s sender oApp guid m ex xd = Inl UnauthorizedSender)
       \<and> (sender = endpoint s \<and> oApp \<noteq> trustedOFT s \<longrightarrow>
            lzCompose xfer s sender oApp guid m ex xd = Inl UntrustedOApp)
       \<and> (sender \<noteq> endpoint s \<or> oApp \<noteq> trustedOFT s \<longrightarrow>
            state_after s (lzCompose xfer s sender oApp guid m ex xd) = s)"
  using assms by (simp add: lzCompose_def state_after_Inl)

text \<open>
  The claim at the example deployment: an otherwise valid transfer delivered by the
  caller 5 instead of the endpoint 1, and one delivered by the endpoint for the OApp 9
  instead of the trusted OFT 2.
\<close>

theorem lzCompose_authentication_witness:
  "\<not> paused example_manager
   \<and> 5 \<noteq> endpoint example_manager
   \<and> lzCompose erc20_safeTransfer example_manager 5 2 0
        (example_envelope (encodeCrossChainSend 6)) 0 [] = Inl UnauthorizedSender
   \<and> 1 = endpoint example_manager \<and> 9 \<noteq> trustedOFT example_manager
   \<and> lzCompose erc20_safeTransfer example_manager 1 9 0
        (example_envelope (encodeCrossChainSend 6)) 0 [] = Inl UntrustedOApp
   \<and> state_after example_manager (lzCompose erc20_safeTransfer example_manager 1 9 0
        (example_envelope (encodeCrossChainSend 6)) 0 []) = example_manager"
proof -
  have np: "\<not> paused example_manager"
    by (simp add: example_manager_def)
  have e: "endpoint example_manager = 1" and t: "trustedOFT example_manager = 2"
    by (simp_all add: example_manager_def)
  show ?thesis
    using lzCompose_authentication [OF np, of 5 erc20_safeTransfer 2 0
        "example_envelope (encodeCrossChainSend 6)" 0 "[]"]
      lzCompose_authentication [OF np, of 1 erc20_safeTransfer 9 0
        "example_envelope (encodeCrossChainSend 6)" 0 "[]"]
    by (simp add: np e t state_after_Inl)
qed

subsection \<open>Pausing\<close>

text \<open>
  Claim C2. While \<open>paused\<close> is set, every call of \<open>lzCompose\<close> fails with
  \<open>ContractPaused\<close> and leaves the state as it was. If the envelope is one the receiver
  accepts (it comes from the endpoint for the trusted OFT, its payload decodes, a
  \<open>BURNT\<close> payload carries an amount word, the token accepts the transfer and the total
  does not overflow), then after the owner's \<open>setPaused(false)\<close> the same envelope is
  processed successfully and \<open>totalProcessed\<close> has grown by exactly the delivered
  amount.
\<close>

theorem lzCompose_pause_then_unpause:
  assumes "paused s"
  shows "lzCompose xfer s c oApp guid m ex xd = Inl ContractPaused
       \<and> state_after s (lzCompose xfer s c oApp guid m ex xd) = s
       \<and> (sender = owner s \<and> c = endpoint s \<and> oApp = trustedOFT s
            \<and> m = OFTComposeMsgCodec_encode n e a cf cm \<and> decode cm = Inr cd
            \<and> (messageType cd = BURNT \<longrightarrow> 32 \<le> length (additionalData cd))
            \<and> xfer (tokens s) (trustedOFT s) (self_address s) (recipient cd) a = Inr tok
            \<and> unat (totalProcessed s) + unat a < 2 ^ 256
          \<longrightarrow> (\<exists>s' s''. setPaused s sender False = Inr s'
                \<and> lzCompose xfer s' c oApp guid m ex xd = Inr s''
                \<and> unat (totalProcessed s'') = unat (totalProcessed s) + unat a
                \<and> tokens s'' = tok))"
proof (intro conjI impI)
  show p: "lzCompose xfer s c oApp guid m ex xd = Inl ContractPaused"
    using assms by (rule lzCompose_paused)
  show "state_after s (lzCompose xfer s c oApp guid m ex xd) = s"
    by (simp add: p state_after_Inl)
next
  assume v: "sender = owner s \<and> c = endpoint s \<and> oApp = trustedOFT s
            \<and> m = OFTComposeMsgCodec_encode n e a cf cm \<and> decode cm = Inr cd
            \<and> (messageType cd = BURNT \<longrightarrow> 32 \<le> length (additionalData cd))
            \<and> xfer (tokens s) (trustedOFT s) (self_address s) (recipient cd) a = Inr tok
            \<and> unat (totalProcessed s) + unat a < 2 ^ 256"
  let ?s' = "s\<lparr>paused := False, events := events s @ [PausedStateChanged False]\<rparr>"
  have sp: "setPaused s sender False = Inr ?s'"
    using v by (simp add: setPaused_def)
  have mt: "messageType cd \<noteq> CROSS_CHAIN_SEND \<Longrightarrow> messageType cd = BURNT"
    by (cases "messageType cd") simp_all
  have "lzCompose xfer ?s' c oApp guid (OFTComposeMsgCodec_encode n e a cf cm) ex xd =
      Inr (?s'\<lparr>tokens := tok, totalProcessed := totalProcessed s + a,
             events := events ?s' @ [TokensProcessed (recipient cd) a (messageType cd)]\<rparr>)"
    using v mt
    by (subst lzCompose_envelope)
       (auto simp add: and_then_def checked_add_def abi_decode_uint256_def)
  moreover have "unat (totalProcessed s + a) = unat (totalProcessed s) + unat a"
    using v by (simp add: unat_word_ariths)
  ultimately show "\<exists>s' s''. setPaused s sender False = Inr s'
                \<and> lzCompose xfer s' c oApp guid m ex xd = Inr s''
                \<and> unat (totalProcessed s'') = unat (totalProcessed s) + unat a
                \<and> tokens s'' = tok"
    using sp v by simp
qed

text \<open>
  The scenario of the specification: the example deployment paused, a valid
  \<open>CROSS_CHAIN_SEND\<close> for the amount 100 to address 6, rejected, then accepted after the
  owner unpauses; the total is 100, the recipient holds 100 and the receiver 900.
\<close>

theorem lzCompose_pause_then_unpause_witness:
  "paused (example_manager\<lparr>paused := True\<rparr>)
   \<and> lzCompose erc20_safeTransfer (example_manager\<lparr>paused := True\<rparr>) 1 2 0
        (example_envelope (encodeCrossChainSend 6)) 0 [] = Inl ContractPaused
   \<and> (\<exists>s' s''. setPaused (example_manager\<lparr>paused := True\<rparr>) 3 False = Inr s'
         \<and> lzCompose erc20_safeTransfer s' 1 2 0
              (example_envelope (encodeCrossChainSend 6)) 0 [] = Inr s''
         \<and> unat (totalProcessed s'') = 100
         \<and> tokens s'' 2 6 = 100 \<and> tokens s'' 2 4 = 900)"
proof -
  let ?P = "example_manager\<lparr>paused := True\<rparr>"
  have p: "paused ?P" by simp
  have v: "3 = owner ?P \<and> 1 = endpoint ?P \<and> 2 = trustedOFT ?P
      \<and> example_envelope (encodeCrossChainSend 6) =
          OFTComposeMsgCodec_encode 7 30101 100 8 (encodeCrossChainSend 6)
      \<and> decode (encodeCrossChainSend 6) =
          Inr \<lparr>recipient = 6, messageType = CROSS_CHAIN_SEND, additionalData = []\<rparr>
      \<and> (messageType \<lparr>recipient = 6, messageType = CROSS_CHAIN_SEND, additionalData = []\<rparr>
            = BURNT \<longrightarrow>
          32 \<le> length (additionalData
            \<lparr>recipient = 6, messageType = CROSS_CHAIN_SEND, additionalData = []\<rparr>))
      \<and> erc20_safeTransfer (tokens ?P) (trustedOFT ?P) (self_address ?P)
          (recipient \<lparr>recipient = 6, messageType = CROSS_CHAIN_SEND, additionalData = []\<rparr>)
          100 = Inr (example_ledger(2 := ((example_ledger 2)(4 := 900))(6 := 100)))
      \<and> unat (totalProcessed ?P) + unat (100 :: uint256) < 2 ^ 256"
    by (simp add: example_manager_def example_envelope_def decode_encodeCrossChainSend
        example_transfer)
  have t0: "totalProcessed example_manager = 0"
    by (simp add: example_manager_def)
  from lzCompose_pause_then_unpause [OF p, where xfer = erc20_safeTransfer and c = 1
      and oApp = 2 and guid = 0 and m = "example_envelope (encodeCrossChainSend 6)"
      and ex = 0 and xd = "[]" and sender = 3 and n = 7 and e = 30101 and a = 100 and cf = 8
      and cm = "encodeCrossChainSend 6"
      and cd = "\<lparr>recipient = 6, messageType = CROSS_CHAIN_SEND, additionalData = []\<rparr>"
      and tok = "example_ledger(2 := ((example_ledger 2)(4 := 900))(6 := 100))"] v
  show ?thesis
    by (auto simp add: t0)
qed

subsection \<open>Tags outside the enumeration\<close>

lemma abi_decode_tuple_bad_tag: "2 \<le> mload cm 32 \<Longrightarrow> abi_decode_tuple cm = Inl RevertEmpty"
  by (simp add: abi_decode_tuple_def)

lemma decode_bad_tag: "2 \<le> mload cm 32 \<Longrightarrow> decode cm = Inl RevertEmpty"
  by (simp add: decode_def abi_decode_tuple_bad_tag)

lemma lzCompose_bad_tag:
  assumes "\<not> paused s" "sender = endpoint s" "oApp = trustedOFT s"
    and "OFTComposeMsgCodec_composeMsg m = Inr cm" "2 \<le> mload cm 32"
  shows "lzCompose xfer s sender oApp guid m ex xd = Inl RevertEmpty"
  using assms
  by (auto simp add: lzCompose_def and_then_def Let_def decode_bad_tag
      OFTComposeMsgCodec_nonce_def OFTComposeMsgCodec_srcEid_def
      OFTComposeMsgCodec_amountLD_def OFTComposeMsgCodec_composeFrom_def
      split: sum.splits dest: calldata_slice_error)

text \<open>
  Claim C3 asks that a payload whose tag word is outside \<open>{0, 1}\<close>, in a message that
  passes the pause and authentication checks, makes \<open>lzCompose\<close> fail with
  \<open>UnsupportedMessageType\<close>. The handler's last branch reverts with that error, but the
  decoder called before it rejects the tag first. At the example deployment, an envelope
  from the endpoint for the trusted OFT whose payload has the tag word 2 fails with the
  data-less revert of the decoder, not with \<open>UnsupportedMessageType\<close>.
\<close>

theorem lzCompose_tag_two_reverts_in_decoder:
  "\<not> paused example_manager \<and> 1 = endpoint example_manager \<and> 2 = trustedOFT example_manager
   \<and> mload (be_bytes 32 6 @ be_bytes 32 2 @ be_bytes 32 96 @ be_bytes 32 0) 32 = 2
   \<and> lzCompose erc20_safeTransfer example_manager 1 2 0
        (example_envelope (be_bytes 32 6 @ be_bytes 32 2 @ be_bytes 32 96 @ be_bytes 32 0))
        0 [] = Inl RevertEmpty
   \<and> lzCompose erc20_safeTransfer example_manager 1 2 0
        (example_envelope (be_bytes 32 6 @ be_bytes 32 2 @ be_bytes 32 96 @ be_bytes 32 0))
        0 [] \<noteq> Inl UnsupportedMessageType"
proof -
  have m: "mload (be_bytes 32 6 @ be_bytes 32 2 @ be_bytes 32 96 @ be_bytes 32 0) 32 = 2"
    by (simp add: mload_tag_word)
  have "lzCompose erc20_safeTransfer example_manager 1 2 0
        (example_envelope (be_bytes 32 6 @ be_bytes 32 2 @ be_bytes 32 96 @ be_bytes 32 0))
        0 [] = Inl RevertEmpty"
    by (rule lzCompose_bad_tag
          [where cm = "be_bytes 32 6 @ be_bytes 32 2 @ be_bytes 32 96 @ be_bytes 32 0"])
       (simp_all add: example_manager_def example_envelope_def
          OFTComposeMsgCodec_composeMsg_encode m)
  then show ?thesis
    by (simp add: m example_manager_def)
qed

subsection \<open>Successful processing\<close>

lemma lzCompose_burnt_amount_irrelevant:
  "lzCompose xfer s sender oApp guid (OFTComposeMsgCodec_encode n e a cf (encodeBurnt r b)) ex xd
     = lzCompose xfer s sender oApp guid
         (OFTComposeMsgCodec_encode n e a cf (encodeBurnt r b')) ex xd"
proof (cases "\<not> paused s \<and> sender = endpoint s \<and> oApp = trustedOFT s")
  case True
  then show ?thesis
    by (simp add: lzCompose_envelope decode_encodeBurnt and_then_def
        abi_decode_encode_uint256 split: sum.splits)
next
  case False
  then show ?thesis
    by (auto simp add: lzCompose_def)
qed

text \<open>
  Claim C4. Whenever \<open>lzCompose\<close> succeeds, for either message type, the state of the
  tokens afterwards is the result of one \<open>safeTransfer\<close> of the envelope's delivered
  amount from the receiver to the payload's recipient, and \<open>totalProcessed\<close> has grown by
  exactly the delivered amount. For \<open>BURNT\<close> the embedded burnt amount has no influence:
  two envelopes that differ only in it give the same result.
\<close>

theorem lzCompose_success_amounts:
  "(lzCompose xfer s sender oApp guid m ex xd = Inr s' \<longrightarrow>
      (\<exists>amt cm cd. OFTComposeMsgCodec_amountLD m = Inr amt
         \<and> OFTComposeMsgCodec_composeMsg m = Inr cm \<and> decode cm = Inr cd
         \<and> xfer (tokens s) (trustedOFT s) (self_address s) (recipient cd) amt
             = Inr (tokens s')
         \<and> unat (totalProcessed s') = unat (totalProcessed s) + unat amt))
   \<and> lzCompose xfer s sender oApp guid
        (OFTComposeMsgCodec_encode n e a cf (encodeBurnt r b)) ex xd
     = lzCompose xfer s sender oApp guid
        (OFTComposeMsgCodec_encode n e a cf (encodeBurnt r b')) ex xd"
proof (intro conjI impI)
  assume "lzCompose xfer s sender oApp guid m ex xd = Inr s'"
  from lzCompose_Inr [OF this]
  show "\<exists>amt cm cd. OFTComposeMsgCodec_amountLD m = Inr amt
         \<and> OFTComposeMsgCodec_composeMsg m = Inr cm \<and> decode cm = Inr cd
         \<and> xfer (tokens s) (trustedOFT s) (self_address s) (recipient cd) amt
             = Inr (tokens s')
         \<and> unat (totalProcessed s') = unat (totalProcessed s) + unat amt"
    by blast
next
  show "lzCompose xfer s sender oApp guid
        (OFTComposeMsgCodec_encode n e a cf (encodeBurnt r b)) ex xd
     = lzCompose xfer s sender oApp guid
        (OFTComposeMsgCodec_encode n e a cf (encodeBurnt r b')) ex xd"
    by (rule lzCompose_burnt_amount_irrelevant)
qed

text \<open>
  The claim at the example deployment: a \<open>BURNT\<close> message with burnt amount 7 and
  delivered amount 100 moves 100 to the recipient 6 and adds 100 to the total.
\<close>

theorem lzCompose_success_amounts_witness:
  "lzCompose erc20_safeTransfer example_manager 1 2 0
      (example_envelope (encodeBurnt 6 7)) 0 [] =
     Inr (example_manager\<lparr>tokens := example_ledger(2 := ((example_ledger 2)(4 := 900))(6 := 100)),
            totalProcessed := 100, events := [TokensProcessed 6 100 BURNT]\<rparr>)
   \<and> (\<exists>amt cm cd. OFTComposeMsgCodec_amountLD (example_envelope (encodeBurnt 6 7)) = Inr amt
         \<and> OFTComposeMsgCodec_composeMsg (example_envelope (encodeBurnt 6 7)) = Inr cm
         \<and> decode cm = Inr cd
         \<and> erc20_safeTransfer (tokens example_manager) (trustedOFT example_manager)
             (self_address example_manager) (recipient cd) amt
             = Inr (example_ledger(2 := ((example_ledger 2)(4 := 900))(6 := 100)))
         \<and> (100 :: nat) = unat (totalProcessed example_manager) + unat amt)"
proof -
  let ?s' = "example_manager\<lparr>tokens := example_ledger(2 := ((example_ledger 2)(4 := 900))(6 := 100)),
            totalProcessed := 100, events := [TokensProcessed 6 100 BURNT]\<rparr>"
  have g: "\<not> paused example_manager" "1 = endpoint example_manager"
    "2 = trustedOFT example_manager"
    by (simp_all add: example_manager_def)
  have f: "tokens example_manager = example_ledger" "trustedOFT example_manager = 2"
    "self_address example_manager = 4" "totalProcessed example_manager = 0"
    "events example_manager = []"
    by (simp_all add: example_manager_def)
  have h: "lzCompose erc20_safeTransfer example_manager 1 2 0
      (example_envelope (encodeBurnt 6 7)) 0 [] = Inr ?s'"
    unfolding example_envelope_def
    by (subst lzCompose_envelope [OF g])
       (simp add: decode_encodeBurnt and_then_def abi_decode_encode_uint256 f
          example_transfer checked_add_def)
  from lzCompose_success_amounts [where xfer = erc20_safeTransfer and s = example_manager
      and sender = 1 and oApp = 2 and guid = 0 and m = "example_envelope (encodeBurnt 6 7)"
      and ex = 0 and xd = "[]" and s' = ?s', THEN conjunct1, rule_format, OF h] h
  show ?thesis
    by simp
qed

section \<open>Properties of the initiator\<close>

lemma sendComposed_sendParam_eq:
  "sendComposed_sendParam s rto amt eid mt opts =
     (if eid = 0 then Inl InvalidEndpointId
      else if peers s eid = 0 then Inl NoPeerConfigured
      else if crossChainManagers s eid = 0 then Inl NoCrossChainManager
      else Inr \<lparr>dstEid = eid, to = addressToBytes32 (crossChainManagers s eid), amountLD = amt,
             minAmountLD = amt, extraOptions = opts,
             composeMsg = (case mt of CROSS_CHAIN_SEND \<Rightarrow> encodeCrossChainSend rto
                           | BURNT \<Rightarrow> encodeBurnt rto amt),
             oftCmd = [48, 120]\<rparr>)"
  by (cases mt) (simp_all add: sendComposed_sendParam_def validDestination_def and_then_def)

lemma sendParam_amounts:
  assumes "sendComposed_sendParam s rto amt eid mt opts = Inr sp"
  shows "amountLD sp = amt \<and> minAmountLD sp = amt
       \<and> (mt = BURNT \<longrightarrow> getBurntAmount (composeMsg sp) = Inr amt)"
  using assms
  by (auto simp add: sendComposed_sendParam_eq getBurntAmount_encodeBurnt split: if_splits)

subsection \<open>Preconditions of sendComposed\<close>

text \<open>
  Claim C9. \<open>sendComposed\<close> fails with the Ownable base's
  \<open>OwnableUnauthorizedAccount\<close> (the spec's Unauthorized) when the caller is not the
  owner. For the owner it fails with \<open>InvalidEndpointId\<close> when the destination is zero,
  else with \<open>NoPeerConfigured\<close> when no peer is set for the destination, else with
  \<open>NoCrossChainManager\<close> when no manager is registered for it. This holds for every
  behaviour of the inherited quote and send, so the failure precedes the encoding, the
  quote and the debit.
\<close>

theorem sendComposed_preconditions:
  "(sender \<noteq> oft_owner s \<longrightarrow>
      sendComposed qs sd s sender rto amt eid mt pay opts
        = Inl (OwnableUnauthorizedAccount sender))
   \<and> (sender = oft_owner s \<and> eid = 0 \<longrightarrow>
      sendComposed qs sd s sender rto amt eid mt pay opts = Inl InvalidEndpointId)
   \<and> (sender = oft_owner s \<and> eid \<noteq> 0 \<and> peers s eid = 0 \<longrightarrow>
      sendComposed qs sd s sender rto amt eid mt pay opts = Inl NoPeerConfigured)
   \<and> (sender = oft_owner s \<and> eid \<noteq> 0 \<and> peers s eid \<noteq> 0 \<and> crossChainManagers s eid = 0 \<longrightarrow>
      sendComposed qs sd s sender rto amt eid mt pay opts = Inl NoCrossChainManager)"
  by (simp add: sendComposed_def sendComposed_internal_def sendComposed_sendParam_eq
      and_then_def)

text \<open>
  The four failures at the example initiator: the caller 5; the owner with destination
  0; with destination 7, which has no peer; and with destination 40161, which has a peer
  and no manager.
\<close>

theorem sendComposed_preconditions_witness:
  "5 \<noteq> oft_owner example_oft
   \<and> sendComposed example_quoteSend example_send example_oft 5 6 1000 40168 BURNT False []
       = Inl (OwnableUnauthorizedAccount 5)
   \<and> 3 = oft_owner example_oft
   \<and> sendComposed example_quoteSend example_send example_oft 3 6 1000 0 BURNT False []
       = Inl InvalidEndpointId
   \<and> peers example_oft 7 = 0
   \<and> sendComposed example_quoteSend example_send example_oft 3 6 1000 7 BURNT False []
       = Inl NoPeerConfigured
   \<and> peers example_oft 40161 \<noteq> 0 \<and> crossChainManagers example_oft 40161 = 0
   \<and> sendComposed example_quoteSend example_send example_oft 3 6 1000 40161 BURNT False []
       = Inl NoCrossChainManager"
proof -
  have o: "oft_owner example_oft = 3" and p7: "peers example_oft 7 = 0"
    and p1: "peers example_oft 40161 = 9" and m1: "crossChainManagers example_oft 40161 = 0"
    by (simp_all add: example_oft_def)
  show ?thesis
    using
      sendComposed_preconditions [where sender = 5 and s = example_oft
        and qs = example_quoteSend and sd = example_send and rto = 6 and amt = 1000
        and eid = 40168 and mt = BURNT and pay = False and opts = "[]"]
      sendComposed_preconditions [where sender = 3 and s = example_oft
        and qs = example_quoteSend and sd = example_send and rto = 6 and amt = 1000
        and eid = 0 and mt = BURNT and pay = False and opts = "[]"]
      sendComposed_preconditions [where sender = 3 and s = example_oft
        and qs = example_quoteSend and sd = example_send and rto = 6 and amt = 1000
        and eid = 7 and mt = BURNT and pay = False and opts = "[]"]
      sendComposed_preconditions [where sender = 3 and s = example_oft
        and qs = example_quoteSend and sd = example_send and rto = 6 and amt = 1000
        and eid = 40161 and mt = BURNT and pay = False and opts = "[]"]
    by (simp add: o p7 p1 m1)
qed

subsection \<open>The amount embedded for BURNT\<close>

text \<open>
  Claim C5, as stated, fails: there is no invocation in which the burnt amount embedded
  in the compose payload differs from the amount of the send request. Whenever the request
  is built for \<open>BURNT\<close> and the embedded amount is read back, it is the request's
  \<open>amountLD\<close>.
\<close>

theorem sendComposed_burnt_amount_counterexample:
  "\<not> (\<exists>(s :: unit AlphaOFT) rto amt eid opts sp burnt.
         sendComposed_sendParam s rto amt eid BURNT opts = Inr sp
       \<and> getBurntAmount (composeMsg sp) = Inr burnt \<and> burnt \<noteq> amountLD sp)"
  using sendParam_amounts by fastforce

text \<open>
  Claim C5, amended. In \<open>sendComposed\<close> the amount parameter is the \<open>amountLD\<close> and
  the \<open>minAmountLD\<close> of the outer send request, and for \<open>BURNT\<close> the same parameter is
  the amount embedded in the compose payload: the embedded burnt amount always equals the
  amount of the request.
\<close>

theorem sendComposed_burnt_amount_is_amount:
  assumes "sendComposed_sendParam s rto amt eid mt opts = Inr sp"
  shows "amountLD sp = amt \<and> minAmountLD sp = amt
       \<and> (mt = BURNT \<longrightarrow> getBurntAmount (composeMsg sp) = Inr (amountLD sp))"
  using sendParam_amounts [OF assms] by simp

text \<open>
  The amended claim at the example initiator, for a burn of 1000 towards chain 40168.
\<close>

theorem sendComposed_burnt_amount_is_amount_witness:
  "sendComposed_sendParam example_oft 6 1000 40168 BURNT [] =
      Inr \<lparr>dstEid = 40168, to = addressToBytes32 4, amountLD = 1000, minAmountLD = 1000,
           extraOptions = [], composeMsg = encodeBurnt 6 1000, oftCmd = [48, 120]\<rparr>
   \<and> getBurntAmount (encodeBurnt 6 1000) = Inr 1000"
proof -
  have h: "sendComposed_sendParam example_oft 6 1000 40168 BURNT [] =
      Inr \<lparr>dstEid = 40168, to = addressToBytes32 4, amountLD = 1000, minAmountLD = 1000,
           extraOptions = [], composeMsg = encodeBurnt 6 1000, oftCmd = [48, 120]\<rparr>"
    by (simp add: sendComposed_sendParam_eq example_oft_def)
  show ?thesis
    using sendComposed_burnt_amount_is_amount [OF h] h by simp
qed

subsection \<open>Quote and send build the same request\<close>

text \<open>
  Claim C10. For the same arguments \<open>quoteSendComposed\<close> and \<open>_sendComposed\<close> build
  the same send request (or fail with the same error): same destination, same manager as
  target, same \<open>amountLD\<close> and \<open>minAmountLD\<close>, same options and the same compose
  payload. The fee that \<open>_sendComposed\<close> hands to \<open>send\<close> together with that request is
  the fee \<open>quoteSendComposed\<close> returns.
\<close>

theorem quote_and_send_same_request:
  "quoteSendComposed_sendParam s rto amt eid mt opts
     = sendComposed_sendParam s rto amt eid mt opts
   \<and> sendComposed_internal qs sd s sender rto amt eid mt pay opts =
       and_then (sendComposed_sendParam s rto amt eid mt opts) (\<lambda>sendParam.
       and_then (quoteSendComposed qs s rto amt eid mt pay opts) (\<lambda>msgFee.
       and_then (sd s sendParam msgFee sender (if pay then 0 else nativeFee msgFee)) (\<lambda>s'.
         Inr (s'\<lparr>oft_events := oft_events s' @ [CrossChainSendInitiated rto amt eid]\<rparr>))))"
proof
  show eq: "quoteSendComposed_sendParam s rto amt eid mt opts
      = sendComposed_sendParam s rto amt eid mt opts"
    by (simp add: quoteSendComposed_sendParam_def sendComposed_sendParam_def)
  show "sendComposed_internal qs sd s sender rto amt eid mt pay opts =
       and_then (sendComposed_sendParam s rto amt eid mt opts) (\<lambda>sendParam.
       and_then (quoteSendComposed qs s rto amt eid mt pay opts) (\<lambda>msgFee.
       and_then (sd s sendParam msgFee sender (if pay then 0 else nativeFee msgFee)) (\<lambda>s'.
         Inr (s'\<lparr>oft_events := oft_events s' @ [CrossChainSendInitiated rto amt eid]\<rparr>))))"
    by (cases "sendComposed_sendParam s rto amt eid mt opts")
       (simp_all add: sendComposed_internal_def quoteSendComposed_def eq and_then_def Let_def)
qed

end
